theory Spec2Isabelle
  imports Main "HOL-Library.Sublist" "HOL-Library.Word"
begin

section \<open>Results of the embedded code\<close>

text \<open>
  The parsing code of \<^verbatim>\<open>jglsl_shader.hpp\<close> works on a character buffer \<open>code\<close> and a
  length \<open>len\<close> that the caller passes next to it. The buffer is a \<^typ>\<open>string\<close>; its
  characters are at the indices below \<open>length code\<close>, and the terminating NUL of the C
  string stands at index \<open>length code\<close>. Offsets are \<open>uint32_t\<close> in the source and
  natural numbers here: every offset the code computes is at most \<open>len + 2\<close>, so for
  buffers shorter than \<open>2^32 - 2\<close> bytes no addition wraps.

  A read \<open>code[i]\<close> of the source is \<open>rd code i\<close>: inside the buffer for
  \<open>i < length code\<close>, outside it otherwise.

  A function of the source has three outcomes: it returns a value (\<open>Some (Inr v)\<close>), it
  reads the buffer outside its bounds (\<open>Some (Inl OutOfBounds)\<close>; undefined behaviour in
  C++), or it never returns (\<open>None\<close>). Loops that always end are total functions with
  results in \<open>error + 'a\<close>.
\<close>

datatype error = OutOfBounds

type_synonym 'a result = "(error + 'a) option"

definition bindE :: "error + 'a \<Rightarrow> ('a \<Rightarrow> error + 'b) \<Rightarrow> error + 'b" where
  "bindE m f = (case m of Inl e \<Rightarrow> Inl e | Inr a \<Rightarrow> f a)"

definition bindM :: "'a result \<Rightarrow> ('a \<Rightarrow> 'b result) \<Rightarrow> 'b result" where
  "bindM m f = (case m of None \<Rightarrow> None | Some (Inl e) \<Rightarrow> Some (Inl e) | Some (Inr a) \<Rightarrow> f a)"

definition rd :: "string \<Rightarrow> nat \<Rightarrow> error + char" where
  "rd code i = (if i < length code then Inr (code ! i) else Inl OutOfBounds)"

section \<open>Scanner\<close>

text \<open>\<open>isspace\<close> of the C library, in the C locale: space, \<open>\t\<close>, \<open>\n\<close>, \<open>\v\<close>, \<open>\f\<close>, \<open>\r\<close>.\<close>

definition isspace :: "char \<Rightarrow> bool" where
  "isspace c = (c = CHR '' '' \<or> c = CHR 0x09 \<or> c = CHR 0x0A \<or> c = CHR 0x0B
                \<or> c = CHR 0x0C \<or> c = CHR 0x0D)"

text \<open>\<^verbatim>\<open>while ((ptr < len) && isspace(code[ptr])) ++ptr;\<close>\<close>

function skip_spaces :: "string \<Rightarrow> nat \<Rightarrow> nat \<Rightarrow> error + nat" where
  "skip_spaces code ptr len =
     (if ptr < len then
        (case rd code ptr of
           Inl e \<Rightarrow> Inl e
         | Inr c \<Rightarrow> if isspace c then skip_spaces code (ptr + 1) len else Inr ptr)
      else Inr ptr)"
  by pat_completeness auto
termination
  by (relation "measure (\<lambda>(code, ptr, len). len - ptr)") auto

text \<open>
  \<^verbatim>\<open>while ((ptr < len) && ((code[ptr] != '\n') || (code[ptr] != '\r'))) ++ptr;\<close>
  The operator \<open>||\<close> evaluates its right operand only when the left one is false.
\<close>

function skip_line :: "string \<Rightarrow> nat \<Rightarrow> nat \<Rightarrow> error + nat" where
  "skip_line code ptr len =
     (if ptr < len then
        (case rd code ptr of
           Inl e \<Rightarrow> Inl e
         | Inr c \<Rightarrow>
             if (if c \<noteq> CHR 0x0A then True else c \<noteq> CHR 0x0D)
             then skip_line code (ptr + 1) len else Inr ptr)
      else Inr ptr)"
  by pat_completeness auto
termination
  by (relation "measure (\<lambda>(code, ptr, len). len - ptr)") auto

text \<open>
  \<^verbatim>\<open>while ((ptr+1 < len) && ((code[ptr] != '*') && (code[ptr+1] != '/'))) ++ptr;\<close>
  The second character is read only when the first is not \<open>*\<close>.
\<close>

function skip_block :: "string \<Rightarrow> nat \<Rightarrow> nat \<Rightarrow> error + nat" where
  "skip_block code ptr len =
     (if ptr + 1 < len then
        (case rd code ptr of
           Inl e \<Rightarrow> Inl e
         | Inr c \<Rightarrow>
             if c \<noteq> CHR ''*'' then
               (case rd code (ptr + 1) of
                  Inl e \<Rightarrow> Inl e
                | Inr c1 \<Rightarrow> if c1 \<noteq> CHR ''/'' then skip_block code (ptr + 1) len else Inr ptr)
             else Inr ptr)
      else Inr ptr)"
  by pat_completeness auto
termination
  by (relation "measure (\<lambda>(code, ptr, len). len - ptr)") auto

text \<open>
  \<^verbatim>\<open>if ((ptr+1 < len) && ((code[ptr] == '*') && (code[ptr+1] == '/'))) ptr += 2;\<close>
\<close>

definition block_end :: "string \<Rightarrow> nat \<Rightarrow> nat \<Rightarrow> error + nat" where
  "block_end code ptr len =
     (if ptr + 1 < len then
        bindE (rd code ptr) (\<lambda>c.
          if c = CHR ''*'' then
            bindE (rd code (ptr + 1)) (\<lambda>c1. if c1 = CHR ''/'' then Inr (ptr + 2) else Inr ptr)
          else Inr ptr)
      else Inr ptr)"

text \<open>
  One round of the outer loop of \<open>skip_ws\<close>, after \<open>done = true\<close>: the whitespace
  loop, then the comment test. The result is the new \<open>ptr\<close> and the new \<open>done\<close>.
  \<open>done = false\<close> is set whenever \<open>code[ptr]\<close> is a slash with a character after it,
  whether or not one of the two comment branches was taken.
\<close>

definition skip_ws_round :: "string \<Rightarrow> nat \<Rightarrow> nat \<Rightarrow> error + nat \<times> bool" where
  "skip_ws_round code ptr0 len =
     bindE (skip_spaces code ptr0 len) (\<lambda>ptr.
       if ptr + 1 < len then
         bindE (rd code ptr) (\<lambda>c.
           if c = CHR ''/'' then
             bindE (rd code (ptr + 1)) (\<lambda>c1.
               if c1 = CHR ''/'' then
                 bindE (skip_line code (ptr + 1) len) (\<lambda>p. Inr (p, False))
               else if c1 = CHR ''*'' then
                 bindE (skip_block code (ptr + 2) len) (\<lambda>p.
                   bindE (block_end code p len) (\<lambda>p'. Inr (p', False)))
               else Inr (ptr, False))
           else Inr (ptr, True))
       else Inr (ptr, True))"

text \<open>\<^verbatim>\<open>while ((!done) && (ptr < len)) { done = true; ... }  return ptr;\<close>\<close>

partial_function (option) skip_ws_loop :: "string \<Rightarrow> nat \<Rightarrow> bool \<Rightarrow> nat \<Rightarrow> nat result" where
  "skip_ws_loop code ptr fin len =
     (if \<not> fin \<and> ptr < len then
        (case skip_ws_round code ptr len of
           Inl e \<Rightarrow> Some (Inl e)
         | Inr (ptr', fin') \<Rightarrow> skip_ws_loop code ptr' fin' len)
      else Some (Inr ptr))"

declare skip_ws_loop.simps [code]

definition skip_ws :: "string \<Rightarrow> nat \<Rightarrow> nat \<Rightarrow> nat result" where
  "skip_ws code offs len = skip_ws_loop code offs False len"

text \<open>
  \<open>next_tok\<close>: the token is collected up to a delimiter or the end of the buffer; the
  result is the token and the offset of the delimiter.
\<close>

definition tok_char :: "char \<Rightarrow> bool" where
  "tok_char c = (\<not> isspace c \<and> c \<noteq> CHR '';'' \<and> c \<noteq> CHR ''{'' \<and> c \<noteq> CHR ''}''
                 \<and> c \<noteq> CHR '','' \<and> c \<noteq> CHR ''/'' \<and> c \<noteq> CHR ''['')"

function next_tok_loop :: "string \<Rightarrow> string \<Rightarrow> nat \<Rightarrow> nat \<Rightarrow> error + string \<times> nat" where
  "next_tok_loop tok code ptr len =
     (if ptr < len then
        (case rd code ptr of
           Inl e \<Rightarrow> Inl e
         | Inr c \<Rightarrow> if tok_char c then next_tok_loop (tok @ [c]) code (ptr + 1) len
                    else Inr (tok, ptr))
      else Inr (tok, ptr))"
  by pat_completeness auto
termination
  by (relation "measure (\<lambda>(tok, code, ptr, len). len - ptr)") auto

definition next_tok :: "string \<Rightarrow> nat \<Rightarrow> nat \<Rightarrow> error + string \<times> nat" where
  "next_tok code offs len = next_tok_loop [] code offs len"

section \<open>Library functions the parser calls\<close>

text \<open>
  A C string ends at its first NUL. \<open>strstr (code + p) needle\<close> searches the C string
  that starts at offset \<open>p\<close> of the buffer for the first occurrence of the needle (an
  empty needle is found at once) and returns the offset of the occurrence. The pointer
  may stand on the terminator (\<open>p = length code\<close>), not behind it.
\<close>

definition c_str :: "string \<Rightarrow> string" where
  "c_str s = takeWhile (\<lambda>c. c \<noteq> CHR 0x00) s"

fun find_sub :: "string \<Rightarrow> string \<Rightarrow> nat option" where
  "find_sub needle [] = (if needle = [] then Some 0 else None)"
| "find_sub needle (h # hs) =
     (if prefix needle (h # hs) then Some 0 else map_option Suc (find_sub needle hs))"

definition strstr :: "string \<Rightarrow> nat \<Rightarrow> string \<Rightarrow> error + nat option" where
  "strstr code p needle =
     (if p \<le> length code
      then Inr (map_option (\<lambda>i. p + i) (find_sub (c_str needle) (c_str (drop p code))))
      else Inl OutOfBounds)"

section \<open>Builtin type registry\<close>

text \<open>
  \<open>is_builtin_type\<close>: the name equals a base type (\<open>s == base_types[i]\<close>), or a complex
  type occurs in it (\<open>s.find(complex_types[i]) != npos\<close>).
\<close>

fun base_match :: "string \<Rightarrow> string list \<Rightarrow> bool" where
  "base_match s [] = False"
| "base_match s (b # bs) = (if s = b then True else base_match s bs)"

fun complex_match :: "string \<Rightarrow> string list \<Rightarrow> bool" where
  "complex_match s [] = False"
| "complex_match s (c # cs) = (if find_sub c s \<noteq> None then True else complex_match s cs)"

definition is_builtin_type :: "string \<Rightarrow> string list \<Rightarrow> string list \<Rightarrow> bool" where
  "is_builtin_type s base_types complex_types =
     (if base_match s base_types then True else complex_match s complex_types)"

text \<open>The two lists after \<open>import_std_builtin_types\<close>.\<close>

definition std_base_types :: "string list" where
  "std_base_types = [''int'', ''uint'', ''bool'', ''float'', ''double'', ''atomic_uint'']"

definition std_complex_types :: "string list" where
  "std_complex_types = [''vec'', ''mat'', ''image'', ''sampler'']"

section \<open>Struct table builder\<close>

text \<open>
  The table is a \<open>std::map\<close> from a struct's name to its flattened field paths;
  \<open>insert\<close> keeps the entry of a key that is already there.
\<close>

type_synonym struct_table = "string \<rightharpoonup> string list"

definition get_struct_field :: "string \<Rightarrow> struct_table \<Rightarrow> string list option" where
  "get_struct_field name structs = structs name"

definition map_insert :: "('k \<rightharpoonup> 'v) \<Rightarrow> 'k \<Rightarrow> 'v \<Rightarrow> ('k \<rightharpoonup> 'v)" where
  "map_insert m k v = (case m k of None \<Rightarrow> m(k \<mapsto> v) | Some _ \<Rightarrow> m)"

text \<open>A round of a \<open>while\<close> loop either leaves the loop (\<open>break\<close>) or goes on.\<close>

datatype 'a flow = Break 'a | Next 'a

text \<open>
  The array bracket group:
  \<^verbatim>\<open>++offs; while ((offs < len) && (code[offs] != ']')) ++offs;
  if (offs < len) offs += code[offs] == ']';\<close>
\<close>

function find_rbracket :: "string \<Rightarrow> nat \<Rightarrow> nat \<Rightarrow> error + nat" where
  "find_rbracket code offs len =
     (if offs < len then
        (case rd code offs of
           Inl e \<Rightarrow> Inl e
         | Inr c \<Rightarrow> if c \<noteq> CHR '']'' then find_rbracket code (offs + 1) len else Inr offs)
      else Inr offs)"
  by pat_completeness auto
termination
  by (relation "measure (\<lambda>(code, offs, len). len - offs)") auto

definition skip_array :: "string \<Rightarrow> nat \<Rightarrow> nat \<Rightarrow> error + nat" where
  "skip_array code offs len =
     bindE (find_rbracket code (offs + 1) len) (\<lambda>offs.
       if offs < len
       then bindE (rd code offs) (\<lambda>c. Inr (offs + (if c = CHR '']'' then 1 else 0)))
       else Inr offs)"

text \<open>The end of a field in a struct body: one \<open>,\<close> or \<open>;\<close>, or one bracket group.\<close>

definition struct_field_end :: "string \<Rightarrow> nat \<Rightarrow> nat \<Rightarrow> error + nat" where
  "struct_field_end code offs len =
     bindE (rd code offs) (\<lambda>c.
       if c = CHR '','' then Inr (offs + 1)
       else if c = CHR '';'' then Inr (offs + 1)
       else if c = CHR ''['' then skip_array code offs len
       else Inr offs)"

definition struct_field_tail ::
  "string \<Rightarrow> nat \<Rightarrow> nat \<Rightarrow> string list \<Rightarrow> (nat \<times> string list) flow result" where
  "struct_field_tail code len offs0 field_fields =
     bindM (skip_ws code offs0 len) (\<lambda>offs.
       if offs \<ge> len then Some (Inr (Break (offs, field_fields)))
       else bindM (Some (struct_field_end code offs len)) (\<lambda>offs.
         Some (Inr (Next (offs, field_fields)))))"

text \<open>
  One round of the loop over a struct's body: a field of a builtin type, a field of a
  struct type that is in the table (its paths are prefixed with the field's name), or a
  token that is neither, which is stored as it is.
\<close>

definition struct_field ::
  "struct_table \<Rightarrow> string \<Rightarrow> nat \<Rightarrow> string list \<Rightarrow> string list \<Rightarrow> nat \<Rightarrow> string list
     \<Rightarrow> (nat \<times> string list) flow result" where
  "struct_field structs code len base_types complex_types offs0 field_fields =
     bindM (skip_ws code offs0 len) (\<lambda>offs.
       if offs \<ge> len then Some (Inr (Break (offs, field_fields)))
       else bindM (Some (rd code offs)) (\<lambda>c.
         if c = CHR ''}'' then Some (Inr (Break (offs, field_fields)))
         else bindM (Some (next_tok code offs len)) (\<lambda>(tok, offs).
           if is_builtin_type tok base_types complex_types then
             bindM (skip_ws code offs len) (\<lambda>offs.
               if offs \<ge> len then Some (Inr (Break (offs, field_fields)))
               else bindM (Some (next_tok code offs len)) (\<lambda>(tok, offs).
                 struct_field_tail code len offs (field_fields @ [tok])))
           else
             (case get_struct_field tok structs of
                Some struct_fld \<Rightarrow>
                  bindM (skip_ws code offs len) (\<lambda>offs.
                    if offs \<ge> len then Some (Inr (Break (offs, field_fields)))
                    else bindM (Some (next_tok code offs len)) (\<lambda>(tok, offs).
                      struct_field_tail code len offs
                        (field_fields @ map (\<lambda>p. tok @ ''.'' @ p) struct_fld)))
              | None \<Rightarrow> struct_field_tail code len offs (field_fields @ [tok])))))"

lemma bindM_mono [partial_function_mono]:
  assumes mf: "mono_option B" and mg: "\<And>y. mono_option (\<lambda>f. C y f)"
  shows "mono_option (\<lambda>f. bindM (B f) (\<lambda>y. C y f))"
proof -
  have eq: "\<And>m g. bindM m g =
      Option.bind m (\<lambda>r. case r of Inl e \<Rightarrow> Some (Inl e) | Inr a \<Rightarrow> g a)"
    by (simp add: bindM_def split: option.splits sum.splits)
  have "mono_option (\<lambda>f. case r of Inl e \<Rightarrow> Some (Inl e) | Inr a \<Rightarrow> C a f)" for r
    by (cases r) (simp_all add: option.const_mono mg)
  with mf show ?thesis
    unfolding eq by (rule bind_mono)
qed

text \<open>\<^verbatim>\<open>while ((offs < len)) { ... }\<close> over the body of one struct.\<close>

partial_function (option) struct_body ::
  "struct_table \<Rightarrow> string \<Rightarrow> nat \<Rightarrow> string list \<Rightarrow> string list \<Rightarrow> nat \<Rightarrow> string list
     \<Rightarrow> (nat \<times> string list) result" where
  "struct_body structs code len base_types complex_types offs field_fields =
     (if offs < len then
        bindM (struct_field structs code len base_types complex_types offs field_fields)
          (\<lambda>r. case r of
             Break s \<Rightarrow> Some (Inr s)
           | Next (offs', field_fields') \<Rightarrow>
               struct_body structs code len base_types complex_types offs' field_fields')
      else Some (Inr (offs, field_fields)))"

declare struct_body.simps [code]

text \<open>
  From the match of \<open>struct\<close> to the first offset of the body. The result \<open>None\<close>
  stands for the \<open>break\<close> and the \<open>return\<close> statements of this part: both end
  \<open>parse_structures\<close> with the table as it is.
\<close>

definition struct_head :: "string \<Rightarrow> nat \<Rightarrow> nat \<Rightarrow> (string \<times> nat) option result" where
  "struct_head code len pcode =
     bindM (Some (strstr code pcode ''struct'')) (\<lambda>found.
       case found of
         None \<Rightarrow> Some (Inr None)
       | Some p \<Rightarrow>
           bindM (skip_ws code (p + 6) len) (\<lambda>offs.
             if offs \<ge> len then Some (Inr None)
             else bindM (Some (next_tok code offs len)) (\<lambda>(field_name, offs).
               if offs \<ge> len then Some (Inr None)
               else bindM (skip_ws code offs len) (\<lambda>offs.
                 if offs \<ge> len then Some (Inr None)
                 else bindM (Some (rd code offs)) (\<lambda>c.
                   if c \<noteq> CHR ''{'' then Some (Inr None)
                   else bindM (skip_ws code (offs + 1) len) (\<lambda>offs.
                     if offs \<ge> len then Some (Inr None)
                     else Some (Inr (Some (field_name, offs)))))))))"

text \<open>
  The entry is stored when the body ended at a \<open>}\<close>:
  \<^verbatim>\<open>if ((offs < len) && (code[offs] == '}')) structs.insert(...);\<close>
\<close>

definition struct_commit ::
  "struct_table \<Rightarrow> string \<Rightarrow> nat \<Rightarrow> string \<Rightarrow> nat \<Rightarrow> string list \<Rightarrow> error + struct_table" where
  "struct_commit structs code len field_name offs field_fields =
     (if offs < len then
        bindE (rd code offs) (\<lambda>c.
          if c = CHR ''}'' then Inr (map_insert structs field_name field_fields)
          else Inr structs)
      else Inr structs)"

text \<open>
  One round of the \<open>for\<close> loop of \<open>parse_structures\<close>: the new table, and the next
  \<open>pcode\<close> and \<open>offs\<close> when the loop goes on (\<open>pcode = &code[offs + 2]\<close>, unless that
  is at or behind \<open>&code[len]\<close>).
\<close>

definition parse_struct ::
  "struct_table \<Rightarrow> string \<Rightarrow> nat \<Rightarrow> string list \<Rightarrow> string list \<Rightarrow> nat
     \<Rightarrow> (struct_table \<times> (nat \<times> nat) option) result" where
  "parse_struct structs code len base_types complex_types pcode =
     bindM (struct_head code len pcode) (\<lambda>h.
       case h of
         None \<Rightarrow> Some (Inr (structs, None))
       | Some (field_name, offs0) \<Rightarrow>
           bindM (struct_body structs code len base_types complex_types offs0 [])
             (\<lambda>(offs, field_fields).
               bindM (Some (struct_commit structs code len field_name offs field_fields))
                 (\<lambda>structs'.
                   if offs + 2 \<ge> len then Some (Inr (structs', None))
                   else Some (Inr (structs', Some (offs + 2, offs))))))"

partial_function (option) parse_structures_loop ::
  "struct_table \<Rightarrow> string \<Rightarrow> nat \<Rightarrow> string list \<Rightarrow> string list \<Rightarrow> nat \<Rightarrow> nat
     \<Rightarrow> struct_table result" where
  "parse_structures_loop structs code len base_types complex_types pcode offs =
     (if offs < len then
        bindM (parse_struct structs code len base_types complex_types pcode)
          (\<lambda>(structs', nxt). case nxt of
             None \<Rightarrow> Some (Inr structs')
           | Some (pcode', offs') \<Rightarrow>
               parse_structures_loop structs' code len base_types complex_types pcode' offs')
      else Some (Inr structs))"

declare parse_structures_loop.simps [code]

definition parse_structures ::
  "struct_table \<Rightarrow> string \<Rightarrow> nat \<Rightarrow> string list \<Rightarrow> string list \<Rightarrow> struct_table result" where
  "parse_structures structs code len base_types complex_types =
     parse_structures_loop structs code len base_types complex_types 0 0"

section \<open>Declaration extractor\<close>

text \<open>The end of a variable in a declaration: one \<open>,\<close>, or one bracket group.\<close>

definition var_end :: "string \<Rightarrow> nat \<Rightarrow> nat \<Rightarrow> error + nat" where
  "var_end code o1 l =
     bindE (rd code o1) (\<lambda>c.
       if c = CHR '','' then Inr (o1 + 1)
       else if c = CHR ''['' then skip_array code o1 l
       else Inr o1)"

text \<open>
  One round of the loop over the variables of a declaration. \<open>struct_fld\<close> is the
  pointer to the field paths of the declared struct type, null (\<open>None\<close>) for a builtin
  type.
\<close>

definition var_step ::
  "string list \<Rightarrow> string \<Rightarrow> nat \<Rightarrow> string list option \<Rightarrow> nat
     \<Rightarrow> (nat \<times> string list) flow result" where
  "var_step res code l struct_fld o0 =
     bindM (skip_ws code o0 l) (\<lambda>o1.
       if o1 \<ge> l then Some (Inr (Break (o1, res)))
       else bindM (Some (rd code o1)) (\<lambda>c.
         if c = CHR '';'' then Some (Inr (Break (o1, res)))
         else bindM (Some (next_tok code o1 l)) (\<lambda>(tok, o2).
           let res' = (case struct_fld of
                         Some fld \<Rightarrow> res @ map (\<lambda>p. tok @ ''.'' @ p) fld
                       | None \<Rightarrow> res @ [tok])
           in bindM (skip_ws code o2 l) (\<lambda>o3.
                if o3 \<ge> l then Some (Inr (Break (o3, res')))
                else bindM (Some (var_end code o3 l)) (\<lambda>o4.
                  Some (Inr (Next (o4, res'))))))))"

partial_function (option) var_list ::
  "string list \<Rightarrow> string \<Rightarrow> nat \<Rightarrow> string list option \<Rightarrow> nat \<Rightarrow> (nat \<times> string list) result"
  where
  "var_list res code l struct_fld o1 =
     (if o1 < l then
        bindM (var_step res code l struct_fld o1)
          (\<lambda>r. case r of
             Break s \<Rightarrow> Some (Inr s)
           | Next (o2, res') \<Rightarrow> var_list res' code l struct_fld o2)
      else Some (Inr (o1, res)))"

declare var_list.simps [code]

text \<open>
  One round of the \<open>for\<close> loop of \<open>parse_vars\<close>: the new results, and the next
  \<open>pcode\<close> and \<open>offs\<close> when the loop goes on. \<open>continue\<close> leaves \<open>pcode\<close> behind the
  keyword; after the variables, \<open>pcode = &code[o]\<close>. \<open>offs\<close> is the offset of the match.
\<close>

definition parse_var_decl ::
  "string list \<Rightarrow> string \<Rightarrow> string \<Rightarrow> nat \<Rightarrow> string list \<Rightarrow> string list \<Rightarrow> struct_table \<Rightarrow> nat
     \<Rightarrow> (string list \<times> (nat \<times> nat) option) result" where
  "parse_var_decl res field_name code len base_types complex_types structs pcode =
     bindM (Some (strstr code pcode field_name)) (\<lambda>found.
       case found of
         None \<Rightarrow> Some (Inr (res, None))
       | Some offs \<Rightarrow>
           bindM (skip_ws code (offs + length field_name) len) (\<lambda>o1.
             if o1 \<ge> len then Some (Inr (res, None))
             else bindM (Some (next_tok code o1 len)) (\<lambda>(tok, o2).
               if \<not> is_builtin_type tok base_types complex_types then
                 (case get_struct_field tok structs of
                    None \<Rightarrow> Some (Inr (res, Some (offs + length field_name, offs)))
                  | Some fld \<Rightarrow>
                      bindM (var_list res code len (Some fld) o2) (\<lambda>(o3, res').
                        Some (Inr (res', Some (o3, offs)))))
               else
                 bindM (var_list res code len None o2) (\<lambda>(o3, res').
                   Some (Inr (res', Some (o3, offs)))))))"

partial_function (option) parse_vars_loop ::
  "string list \<Rightarrow> string \<Rightarrow> string \<Rightarrow> nat \<Rightarrow> string list \<Rightarrow> string list \<Rightarrow> struct_table
     \<Rightarrow> nat \<Rightarrow> nat \<Rightarrow> string list result" where
  "parse_vars_loop res field_name code len base_types complex_types structs pcode offs =
     (if offs < len then
        bindM (parse_var_decl res field_name code len base_types complex_types structs pcode)
          (\<lambda>(res', nxt). case nxt of
             None \<Rightarrow> Some (Inr res')
           | Some (pcode', offs') \<Rightarrow>
               parse_vars_loop res' field_name code len base_types complex_types structs
                 pcode' offs')
      else Some (Inr res))"

declare parse_vars_loop.simps [code]

text \<open>
  \<open>parse_vars\<close> builds the struct table of the source from an empty map, then scans
  for the keyword. The result is the sequence \<open>res\<close> with the found names appended.
\<close>

definition parse_vars ::
  "string list \<Rightarrow> string \<Rightarrow> string \<Rightarrow> nat \<Rightarrow> string list \<Rightarrow> string list \<Rightarrow> string list result"
  where
  "parse_vars res field_name code len base_types complex_types =
     bindM (parse_structures Map.empty code len base_types complex_types) (\<lambda>structs.
       parse_vars_loop res field_name code len base_types complex_types structs 0 0)"

section \<open>The shader object\<close>

record shader =
  m_attributes :: "string \<rightharpoonup> 32 word"
  m_uniforms :: "string \<rightharpoonup> 32 word"
  m_builtin_types :: "string list"
  m_complex_builtin_types :: "string list"
  m_pending_uniforms :: "string list"
  m_pending_attributes :: "string list"
  m_shaders :: "32 word list"
  m_log_buffer :: string
  m_program :: "32 word"

text \<open>
  \<open>get_attribute\<close> and \<open>get_uniform\<close> are member functions that are not \<open>const\<close>:
  they return the handle and the object as they leave it.
\<close>

definition get_attribute :: "string \<Rightarrow> shader \<Rightarrow> 32 word \<times> shader" where
  "get_attribute attr s = (case m_attributes s attr of Some v \<Rightarrow> (v, s) | None \<Rightarrow> (0, s))"

definition get_uniform :: "string \<Rightarrow> shader \<Rightarrow> 32 word \<times> shader" where
  "get_uniform uni s = (case m_uniforms s uni of Some v \<Rightarrow> (v, s) | None \<Rightarrow> (0, s))"

text \<open>
  What the graphics library answers to the calls of \<open>load\<close>: the shader object of
  \<open>glCreateShader\<close>, the \<open>GL_COMPILE_STATUS\<close> of \<open>glGetShaderiv\<close>, and the info log of
  \<open>glGetShaderInfoLog\<close> (\<open>GL_INFO_LOG_LENGTH\<close> characters).
\<close>

record gl_compile =
  gl_shader :: "32 word"
  gl_status :: "32 word"
  gl_log :: string

text \<open>The object after its constructor: no program, the standard builtin types.\<close>

definition new_shader :: shader where
  "new_shader =
     \<lparr>m_attributes = Map.empty, m_uniforms = Map.empty,
      m_builtin_types = std_base_types, m_complex_builtin_types = std_complex_types,
      m_pending_uniforms = [], m_pending_attributes = [],
      m_shaders = [], m_log_buffer = [], m_program = 0\<rparr>"

definition GL_FALSE :: "32 word" where
  "GL_FALSE = 0"

text \<open>
  \<open>load\<close>: the shader is compiled and its status read; the uniforms and the attributes
  of the source are appended to the pending sequences; then the status decides between
  keeping the shader and writing the log.
\<close>

definition load :: "gl_compile \<Rightarrow> string \<Rightarrow> nat \<Rightarrow> shader \<Rightarrow> (bool \<times> shader) result" where
  "load gl code len s =
     bindM (parse_vars (m_pending_uniforms s) ''uniform'' code len
              (m_builtin_types s) (m_complex_builtin_types s)) (\<lambda>pu.
       bindM (parse_vars (m_pending_attributes s) ''attribute'' code len
                (m_builtin_types s) (m_complex_builtin_types s)) (\<lambda>pa.
         let s' = s\<lparr>m_pending_uniforms := pu, m_pending_attributes := pa\<rparr> in
         if gl_status gl \<noteq> GL_FALSE
         then Some (Inr (True, s'\<lparr>m_shaders := m_shaders s' @ [gl_shader gl]\<rparr>))
         else Some (Inr (False,
                s'\<lparr>m_log_buffer := m_log_buffer s' @ ''LD:'' @ gl_log gl @ [CHR 0x0A]\<rparr>))))"

section \<open>Properties of the scanner on comments\<close>

text \<open>
  The line comment loop goes on while the character differs from \<open>\n\<close> or differs
  from \<open>\r\<close>, which every character does: inside the buffer it runs to \<open>len\<close>.
\<close>

lemma skip_line_to_len:
  "ptr \<le> len \<Longrightarrow> len \<le> length code \<Longrightarrow> skip_line code ptr len = Inr len"
proof (induction code ptr len rule: skip_line.induct)
  case (1 code ptr len)
  show ?case
  proof (cases "ptr < len")
    case True
    with "1.prems" have r: "rd code ptr = Inr (code ! ptr)"
      by (simp add: rd_def)
    have "skip_line code (ptr + 1) len = Inr len"
      using "1.IH"[OF True r] True "1.prems" by auto
    with True r show ?thesis
      by (subst skip_line.simps) auto
  next
    case False
    with "1.prems" show ?thesis
      by (subst skip_line.simps) simp
  qed
qed

text \<open>
  So \<open>skip_ws\<close> at a line comment returns the length of the buffer, whatever
  follows the comment.
\<close>

lemma skip_ws_line_comment_to_len:
  assumes "ptr + 1 < len" and "len \<le> length code"
      and "code ! ptr = CHR ''/''" and "code ! (ptr + 1) = CHR ''/''"
  shows "skip_ws code ptr len = Some (Inr len)"
proof -
  have r0: "rd code ptr = Inr (CHR ''/'')" and r1: "rd code (ptr + 1) = Inr (CHR ''/'')"
    using assms by (simp_all add: rd_def)
  have "skip_spaces code ptr len = Inr ptr"
    using assms(1) r0 by (subst skip_spaces.simps) (simp add: isspace_def)
  moreover have "skip_line code (ptr + 1) len = Inr len"
    using assms(1,2) by (intro skip_line_to_len) simp_all
  ultimately have "skip_ws_round code ptr len = Inr (len, False)"
    using assms(1) r0 r1 by (simp add: skip_ws_round_def bindE_def)
  then have "skip_ws_loop code ptr False len = skip_ws_loop code len False len"
    using assms(1) by (subst skip_ws_loop.simps) simp
  also have "\<dots> = Some (Inr len)"
    by (subst skip_ws_loop.simps) simp
  finally show ?thesis
    by (simp add: skip_ws_def)
qed

text \<open>
  C1. A line comment is to be consumed up to the end of its line, so that the text of
  the next line is scanned. The code consumes the rest of the buffer: at the comment
  \<open>//a\<close> followed by a newline and \<open>b\<close>, \<open>skip_ws\<close> returns 5, the length, and
  not the offset 4 of \<open>b\<close>.
\<close>

theorem skip_ws_line_comment_runs_to_end:
  "skip_ws [CHR ''/'', CHR ''/'', CHR ''a'', CHR 0x0A, CHR ''b''] 0 5 = Some (Inr 5)"
  by code_simp

text \<open>
  A slash that a character follows, which is neither \<open>/\<close> nor \<open>*\<close>: the round
  leaves \<open>ptr\<close> where it is and sets \<open>done = false\<close>, so the loop never ends.
\<close>

lemma skip_ws_round_lone_slash:
  assumes "ptr + 1 < len" and "rd code ptr = Inr (CHR ''/'')"
      and "rd code (ptr + 1) = Inr c1" and "c1 \<noteq> CHR ''/''" and "c1 \<noteq> CHR ''*''"
  shows "skip_ws_round code ptr len = Inr (ptr, False)"
proof -
  have "skip_spaces code ptr len = Inr ptr"
    using assms(1,2) by (subst skip_spaces.simps) (simp add: isspace_def)
  then show ?thesis
    using assms by (simp add: skip_ws_round_def bindE_def)
qed

lemma skip_ws_loop_lone_slash:
  assumes ret: "skip_ws_loop code ptr fin len = Some y"
  shows "\<not> (\<not> fin \<and> ptr + 1 < len \<and> rd code ptr = Inr (CHR ''/'')
            \<and> (\<exists>c1. rd code (ptr + 1) = Inr c1 \<and> c1 \<noteq> CHR ''/'' \<and> c1 \<noteq> CHR ''*''))"
proof (rule skip_ws_loop.raw_induct
    [where P = "\<lambda>code ptr fin len y.
       \<not> (\<not> fin \<and> ptr + 1 < len \<and> rd code ptr = Inr (CHR ''/'')
          \<and> (\<exists>c1. rd code (ptr + 1) = Inr c1 \<and> c1 \<noteq> CHR ''/'' \<and> c1 \<noteq> CHR ''*''))",
     OF _ ret])
  fix f :: "string \<Rightarrow> nat \<Rightarrow> bool \<Rightarrow> nat \<Rightarrow> nat result" and code ptr fin len y
  assume IH: "\<And>code ptr fin len y. f code ptr fin len = Some y \<Longrightarrow>
      \<not> (\<not> fin \<and> ptr + 1 < len \<and> rd code ptr = Inr (CHR ''/'')
         \<and> (\<exists>c1. rd code (ptr + 1) = Inr c1 \<and> c1 \<noteq> CHR ''/'' \<and> c1 \<noteq> CHR ''*''))"
  assume step: "(if \<not> fin \<and> ptr < len
      then case skip_ws_round code ptr len of Inl e \<Rightarrow> Some (Inl e)
           | Inr (ptr', fin') \<Rightarrow> f code ptr' fin' len
      else Some (Inr ptr)) = Some y"
  show "\<not> (\<not> fin \<and> ptr + 1 < len \<and> rd code ptr = Inr (CHR ''/'')
           \<and> (\<exists>c1. rd code (ptr + 1) = Inr c1 \<and> c1 \<noteq> CHR ''/'' \<and> c1 \<noteq> CHR ''*''))"
  proof
    assume a: "\<not> fin \<and> ptr + 1 < len \<and> rd code ptr = Inr (CHR ''/'')
           \<and> (\<exists>c1. rd code (ptr + 1) = Inr c1 \<and> c1 \<noteq> CHR ''/'' \<and> c1 \<noteq> CHR ''*'')"
    then obtain c1 where c1: "rd code (ptr + 1) = Inr c1" "c1 \<noteq> CHR ''/''" "c1 \<noteq> CHR ''*''"
      by blast
    from a have "skip_ws_round code ptr len = Inr (ptr, False)"
      using skip_ws_round_lone_slash[OF _ _ c1] by blast
    with step a have "f code ptr False len = Some y"
      by simp
    from IH[OF this] a show False by blast
  qed
qed

lemma skip_ws_lone_slash:
  assumes "ptr + 1 < len" and "rd code ptr = Inr (CHR ''/'')"
      and "rd code (ptr + 1) = Inr c1" and "c1 \<noteq> CHR ''/''" and "c1 \<noteq> CHR ''*''"
  shows "skip_ws code ptr len = None"
proof (cases "skip_ws code ptr len")
  case None
  then show ?thesis .
next
  case (Some y)
  then have "skip_ws_loop code ptr False len = Some y"
    by (simp add: skip_ws_def)
  from skip_ws_loop_lone_slash[OF this] assms show ?thesis
    by blast
qed

text \<open>
  C2. \<open>skip_ws\<close> is to return for every buffer, also at a slash that opens no
  comment. On the two characters \<open>/a\<close> the code does not return: no offset is the
  result of the call.
\<close>

theorem skip_ws_lone_slash_diverges:
  "skip_ws ''/a'' 0 2 = None"
  by (rule skip_ws_lone_slash[where ?c1.0 = "CHR ''a''"]) (simp_all add: rd_def)

text \<open>
  C3. A block comment is to be consumed through its closing \<open>*/\<close>, whatever stars
  and slashes its body holds. The loop of the code stops at the first star, and at the
  first character that a slash follows: in \<open>/* a*b */x\<close> the scan ends at offset 4, on
  the star inside the comment, and in \<open>/*a/b*/x\<close> at offset 2, on the \<open>a\<close>; the
  character \<open>x\<close> behind the comment is not reached.
\<close>

theorem skip_ws_block_comment_stops_inside:
  "skip_ws ''/* a*b */x'' 0 10 = Some (Inr 4) \<and> skip_ws ''/*a/b*/x'' 0 8 = Some (Inr 2)"
  by code_simp


section \<open>Properties of the keyword search\<close>

lemma find_sub_None_iff: "find_sub needle hay = None \<longleftrightarrow> \<not> sublist needle hay"
  by (induction hay) (auto simp: sublist_Cons_right)

lemma c_str_sublist: "sublist (c_str (drop p code)) code"
proof -
  have "sublist (c_str (drop p code)) (drop p code)"
    unfolding c_str_def by (rule prefix_imp_sublist[OF takeWhile_is_prefix])
  moreover have "sublist (drop p code) code"
    by (rule suffix_imp_sublist[OF suffix_drop])
  ultimately show ?thesis by (rule sublist_order.order_trans)
qed

lemma c_str_no_nul: "CHR 0x00 \<notin> set s \<Longrightarrow> c_str s = s"
  unfolding c_str_def by (induction s) auto

lemma strstr_absent:
  assumes "\<not> sublist needle code" and "CHR 0x00 \<notin> set needle"
  shows "strstr code 0 needle = Inr None"
proof -
  have "\<not> sublist needle (c_str (drop 0 code))"
    using assms(1) c_str_sublist[of 0 code] sublist_order.order_trans by blast
  then show ?thesis
    by (simp add: strstr_def c_str_no_nul[OF assms(2)] find_sub_None_iff)
qed

section \<open>Properties of the struct table builder\<close>

lemma parse_structures_loop_stop:
  assumes "struct_head code len pcode = Some (Inr None)"
  shows "parse_structures_loop structs code len b c pcode offs = Some (Inr structs)"
  by (subst parse_structures_loop.simps) (simp add: parse_struct_def bindM_def assms)

lemma parse_structures_loop_next:
  assumes "offs < len"
      and "parse_struct structs code len b c pcode = Some (Inr (structs', Some (pcode', offs')))"
  shows "parse_structures_loop structs code len b c pcode offs =
         parse_structures_loop structs' code len b c pcode' offs'"
  by (subst parse_structures_loop.simps) (simp add: bindM_def assms)

lemma struct_head_absent:
  assumes "strstr code pcode ''struct'' = Inr None"
  shows "struct_head code len pcode = Some (Inr None)"
  by (simp add: struct_head_def bindM_def assms)




text \<open>
  An entry is stored only at a \<open>}\<close>: on a buffer without one, whatever the builder
  returns is the table it was given.
\<close>

lemma struct_commit_no_brace:
  assumes "CHR ''}'' \<notin> set code"
      and "struct_commit structs code len name offs ff = Inr t"
  shows "t = structs"
proof (cases "offs < len \<and> offs < length code")
  case True
  then have "code ! offs \<in> set code" by simp
  with assms(1) have "code ! offs \<noteq> CHR ''}''" by metis
  with True assms(2) show ?thesis
    by (simp add: struct_commit_def rd_def bindE_def)
next
  case False
  with assms(2) show ?thesis
    by (auto simp: struct_commit_def rd_def bindE_def split: if_splits)
qed

lemma parse_struct_no_brace:
  assumes "CHR ''}'' \<notin> set code"
      and "parse_struct structs code len b c pcode = Some (Inr (t, nxt))"
  shows "t = structs"
proof (cases "struct_head code len pcode")
  case None
  with assms(2) show ?thesis by (simp add: parse_struct_def bindM_def)
next
  case (Some h)
  show ?thesis
  proof (cases h)
    case (Inl e)
    with Some assms(2) show ?thesis by (simp add: parse_struct_def bindM_def)
  next
    case (Inr ho)
    show ?thesis
    proof (cases ho)
      case None
      with Some Inr assms(2) show ?thesis by (simp add: parse_struct_def bindM_def)
    next
      case (Some nm)
      obtain name offs0 where nm: "nm = (name, offs0)" by (cases nm)
      from assms(2) \<open>struct_head code len pcode = Some h\<close> Inr Some nm
      obtain offs ff where
        "struct_commit structs code len name offs ff = Inr t"
        by (auto simp: parse_struct_def bindM_def
                 split: option.splits sum.splits prod.splits if_splits)
      with assms(1) show ?thesis by (rule struct_commit_no_brace)
    qed
  qed
qed

lemma parse_structures_loop_no_brace:
  assumes ret: "parse_structures_loop structs code len b c pcode offs = Some y"
  shows "CHR ''}'' \<notin> set code \<longrightarrow> (\<forall>t. y = Inr t \<longrightarrow> t = structs)"
proof (rule parse_structures_loop.raw_induct
    [where P = "\<lambda>structs code len b c pcode offs y.
       CHR ''}'' \<notin> set code \<longrightarrow> (\<forall>t. y = Inr t \<longrightarrow> t = structs)", OF _ ret])
  fix f :: "struct_table \<Rightarrow> string \<Rightarrow> nat \<Rightarrow> string list \<Rightarrow> string list \<Rightarrow> nat \<Rightarrow> nat
     \<Rightarrow> struct_table result"
    and structs code len b c pcode offs y
  assume IH: "\<And>structs code len b c pcode offs y. f structs code len b c pcode offs = Some y \<Longrightarrow>
       CHR ''}'' \<notin> set code \<longrightarrow> (\<forall>t. y = Inr t \<longrightarrow> t = structs)"
  assume step: "(if offs < len then
        bindM (parse_struct structs code len b c pcode)
          (\<lambda>(structs', nxt). case nxt of
             None \<Rightarrow> Some (Inr structs')
           | Some (pcode', offs') \<Rightarrow> f structs' code len b c pcode' offs')
      else Some (Inr structs)) = Some y"
  show "CHR ''}'' \<notin> set code \<longrightarrow> (\<forall>t. y = Inr t \<longrightarrow> t = structs)"
  proof (intro impI allI)
    fix t
    assume nb: "CHR ''}'' \<notin> set code" and y: "y = Inr t"
    show "t = structs"
    proof (cases "offs < len")
      case False
      with step y show ?thesis by simp
    next
      case True
      with step y obtain s1 nxt where
        ps: "parse_struct structs code len b c pcode = Some (Inr (s1, nxt))"
        and rest: "(case nxt of None \<Rightarrow> Some (Inr s1)
                    | Some (pcode', offs') \<Rightarrow> f s1 code len b c pcode' offs') = Some (Inr t)"
        by (auto simp: bindM_def split: option.splits sum.splits prod.splits)
      have s1: "s1 = structs"
        using parse_struct_no_brace[OF nb ps] .
      show ?thesis
      proof (cases nxt)
        case None
        with rest s1 show ?thesis by simp
      next
        case (Some pn)
        with rest have "f s1 code len b c (fst pn) (snd pn) = Some (Inr t)"
          by (simp add: case_prod_beta)
        from IH[OF this] nb s1 show ?thesis by simp
      qed
    qed
  qed
qed

lemma parse_structures_no_brace:
  assumes "CHR ''}'' \<notin> set code"
      and "parse_structures structs code len b c = Some (Inr t)"
  shows "t = structs"
  using parse_structures_loop_no_brace[of structs code len b c 0 0 "Inr t"] assms
  by (simp add: parse_structures_def)

text \<open>
  C8. On a buffer that holds only the unterminated \<open>struct Foo {\<close>, the builder
  returns, reads no index at or above the length (the result is not \<open>OutOfBounds\<close>)
  and leaves the table as it was, whatever it held: \<open>Foo\<close> is not added. The same
  holds when the end of the buffer comes inside the body, after the field
  \<open>float x;\<close>: the field collected so far is dropped with the struct.
\<close>

theorem parse_structures_unterminated_struct:
  "parse_structures structs ''struct Foo {'' 12 base_types complex_types = Some (Inr structs)
   \<and> parse_structures structs ''struct Foo { float x;'' 21 std_base_types std_complex_types
       = Some (Inr structs)"
proof
  have "struct_head ''struct Foo {'' 12 0 = Some (Inr None)"
    by code_simp
  then show "parse_structures structs ''struct Foo {'' 12 base_types complex_types
      = Some (Inr structs)"
    unfolding parse_structures_def by (rule parse_structures_loop_stop)
next
  let ?src = "''struct Foo { float x;''"
  have hd: "struct_head ?src 21 0 = Some (Inr (Some (''Foo'', 13)))"
    by code_simp
  have bd: "struct_body structs ?src 21 std_base_types std_complex_types 13 []
      = Some (Inr (21, [''x'']))"
    by code_simp
  have "parse_struct structs ?src 21 std_base_types std_complex_types 0
      = Some (Inr (structs, None))"
    by (simp add: parse_struct_def hd bd bindM_def struct_commit_def)
  then show "parse_structures structs ?src 21 std_base_types std_complex_types
      = Some (Inr structs)"
    unfolding parse_structures_def
    by (subst parse_structures_loop.simps) (simp add: bindM_def)
qed

section \<open>Properties of the declaration extractor\<close>

text \<open>
  C5. For the source with \<open>Inner\<close> nested in \<open>Outer\<close> and the declaration
  \<open>uniform Outer test;\<close>, the struct table holds the paths of \<open>Outer\<close> already
  flattened (\<open>f.a2\<close>, \<open>e\<close>), and \<open>parse_vars\<close> with the keyword \<open>uniform\<close>
  appends exactly \<open>test.f.a2\<close> and \<open>test.e\<close>, in this order, to the results it was
  given.
\<close>

theorem extract_nested_structs:
  "parse_structures Map.empty
     ''struct Inner { float a2; }; struct Outer { Inner f; float e; }; uniform Outer test;'' 83
     std_base_types std_complex_types
   = Some (Inr [''Inner'' \<mapsto> [''a2''], ''Outer'' \<mapsto> [''f.a2'', ''e'']])
   \<and> parse_vars res ''uniform''
     ''struct Inner { float a2; }; struct Outer { Inner f; float e; }; uniform Outer test;'' 83
     std_base_types std_complex_types
   = Some (Inr (res @ [''test.f.a2'', ''test.e'']))"
proof
  let ?src = "''struct Inner { float a2; }; struct Outer { Inner f; float e; }; uniform Outer test;''"
  let ?t1 = "[''Inner'' \<mapsto> [''a2'']]"
  let ?t2 = "[''Inner'' \<mapsto> [''a2''], ''Outer'' \<mapsto> [''f.a2'', ''e'']]"
  have h1: "struct_head ?src 83 0 = Some (Inr (Some (''Inner'', 15)))" by code_simp
  have b1: "struct_body Map.empty ?src 83 std_base_types std_complex_types 15 []
      = Some (Inr (25, [''a2'']))" by code_simp
  have c1: "rd ?src 25 = Inr (CHR ''}'')" by code_simp
  have r1: "parse_struct Map.empty ?src 83 std_base_types std_complex_types 0
      = Some (Inr (?t1, Some (27, 25)))"
    by (simp add: parse_struct_def h1 b1 c1 bindM_def bindE_def struct_commit_def map_insert_def)
  have h2: "struct_head ?src 83 27 = Some (Inr (Some (''Outer'', 43)))" by code_simp
  have b2: "struct_body ?t1 ?src 83 std_base_types std_complex_types 43 []
      = Some (Inr (61, [''f.a2'', ''e'']))" by code_simp
  have c2: "rd ?src 61 = Inr (CHR ''}'')" by code_simp
  have r2: "parse_struct ?t1 ?src 83 std_base_types std_complex_types 27
      = Some (Inr (?t2, Some (63, 61)))"
    by (simp add: parse_struct_def h2 b2 c2 bindM_def bindE_def struct_commit_def map_insert_def)
  have h3: "struct_head ?src 83 63 = Some (Inr None)" by code_simp
  have "parse_structures_loop Map.empty ?src 83 std_base_types std_complex_types 0 0
      = parse_structures_loop ?t1 ?src 83 std_base_types std_complex_types 27 25"
    using r1 by (intro parse_structures_loop_next) simp
  also have "\<dots> = parse_structures_loop ?t2 ?src 83 std_base_types std_complex_types 63 61"
    using r2 by (intro parse_structures_loop_next) simp
  also have "\<dots> = Some (Inr ?t2)"
    using h3 by (rule parse_structures_loop_stop)
  finally show "parse_structures Map.empty ?src 83 std_base_types std_complex_types
      = Some (Inr ?t2)"
    by (simp only: parse_structures_def)
next
  show "parse_vars res ''uniform''
     ''struct Inner { float a2; }; struct Outer { Inner f; float e; }; uniform Outer test;'' 83
     std_base_types std_complex_types
   = Some (Inr (res @ [''test.f.a2'', ''test.e'']))"
    by code_simp
qed

text \<open>
  C6. For \<open>uniform float a, b[4];\<close>, \<open>parse_vars\<close> with the keyword \<open>uniform\<close>
  appends exactly \<open>a\<close> and \<open>b\<close>, in this order: one bare name per variable of the
  comma list, and nothing for the bracket group \<open>[4]\<close>.
\<close>

theorem extract_comma_list_and_array:
  "parse_vars res ''uniform'' ''uniform float a, b[4];'' 22 std_base_types std_complex_types
   = Some (Inr (res @ [''a'', ''b'']))"
  by code_simp simp

lemma parse_vars_loop_absent:
  assumes "strstr code pcode field_name = Inr None"
  shows "parse_vars_loop res field_name code len b c structs pcode offs = Some (Inr res)"
  by (subst parse_vars_loop.simps) (simp add: parse_var_decl_def bindM_def assms)

text \<open>
  When the keyword does not occur in the source, \<open>parse_vars\<close> appends nothing:
  whenever the call returns, it returns the results it was given. The call returns
  exactly when the struct table pass over the same source does, and it does return when
  the source holds no \<open>struct\<close> either.
\<close>

lemma parse_vars_no_keyword:
  assumes "\<not> sublist field_name code" and "CHR 0x00 \<notin> set field_name"
  shows "parse_vars res field_name code len base_types complex_types =
           bindM (parse_structures Map.empty code len base_types complex_types)
             (\<lambda>structs. Some (Inr res))
         \<and> (\<not> sublist ''struct'' code \<longrightarrow>
              parse_vars res field_name code len base_types complex_types = Some (Inr res))"
proof
  show eq: "parse_vars res field_name code len base_types complex_types =
           bindM (parse_structures Map.empty code len base_types complex_types)
             (\<lambda>structs. Some (Inr res))"
    by (simp add: parse_vars_def parse_vars_loop_absent[OF strstr_absent[OF assms]])
  show "\<not> sublist ''struct'' code \<longrightarrow>
          parse_vars res field_name code len base_types complex_types = Some (Inr res)"
  proof
    assume "\<not> sublist ''struct'' code"
    then have "strstr code 0 ''struct'' = Inr None"
      by (rule strstr_absent) simp
    then have "parse_structures Map.empty code len base_types complex_types
        = Some (Inr Map.empty)"
      unfolding parse_structures_def
      by (intro parse_structures_loop_stop struct_head_absent)
    then show "parse_vars res field_name code len base_types complex_types = Some (Inr res)"
      by (simp add: eq bindM_def)
  qed
qed

lemma parse_vars_no_keyword_example:
  "\<not> sublist ''uniform'' ''struct S { float x; }; attribute vec3 p;''
   \<and> CHR 0x00 \<notin> set ''uniform''
   \<and> parse_vars [''u''] ''uniform'' ''struct S { float x; }; attribute vec3 p;'' 40
       std_base_types std_complex_types = Some (Inr [''u''])
   \<and> \<not> sublist ''struct'' ''attribute vec3 p;''
   \<and> parse_vars [''u''] ''uniform'' ''attribute vec3 p;'' 17
       std_base_types std_complex_types = Some (Inr [''u''])"
proof -
  have a1: "\<not> sublist ''uniform'' ''struct S { float x; }; attribute vec3 p;''" by code_simp
  have a2: "\<not> sublist ''uniform'' ''attribute vec3 p;''" by code_simp
  have b: "CHR 0x00 \<notin> set ''uniform''" by simp
  have s: "\<not> sublist ''struct'' ''attribute vec3 p;''" by code_simp
  have t: "bindM (parse_structures Map.empty ''struct S { float x; }; attribute vec3 p;'' 40
       std_base_types std_complex_types) (\<lambda>structs. Some (Inr [''u''])) = Some (Inr [''u''])"
    by code_simp
  have r1: "parse_vars [''u''] ''uniform'' ''struct S { float x; }; attribute vec3 p;'' 40
       std_base_types std_complex_types = Some (Inr [''u''])"
    using parse_vars_no_keyword[OF a1 b, of "[''u'']" 40 std_base_types std_complex_types]
    by (simp only: t)
  have r2: "parse_vars [''u''] ''uniform'' ''attribute vec3 p;'' 17
       std_base_types std_complex_types = Some (Inr [''u''])"
    using parse_vars_no_keyword[OF a2 b, of "[''u'']" 17 std_base_types std_complex_types] s
    by blast
  from a1 b r1 s r2 show ?thesis
    by (intro conjI)
qed

text \<open>
  A call of \<open>skip_ws\<close> that does not return takes the loop over the struct body, the
  struct table pass and \<open>parse_vars\<close> with it.
\<close>

lemma skip_ws_round_again:
  assumes "ptr < len" and "skip_ws_round code ptr len = Inr (q, False)"
  shows "skip_ws code ptr len = skip_ws code q len"
  unfolding skip_ws_def
  by (subst skip_ws_loop.simps) (simp add: assms)

lemma struct_field_tail_hangs:
  assumes "skip_ws code offs len = None"
  shows "struct_field_tail code len offs field_fields = None"
  by (simp add: struct_field_tail_def bindM_def assms)

lemma struct_body_hangs:
  assumes "offs < len"
      and "struct_field structs code len b c offs field_fields = None"
  shows "struct_body structs code len b c offs field_fields = None"
  by (subst struct_body.simps) (simp add: bindM_def assms)

lemma struct_body_next:
  assumes "offs < len"
      and "struct_field structs code len b c offs field_fields
             = Some (Inr (Next (offs', field_fields')))"
  shows "struct_body structs code len b c offs field_fields
         = struct_body structs code len b c offs' field_fields'"
  by (subst struct_body.simps) (simp add: bindM_def assms)

lemma parse_vars_struct_body_hangs:
  assumes "0 < len"
      and "struct_head code len 0 = Some (Inr (Some (name, offs)))"
      and "struct_body Map.empty code len b c offs [] = None"
  shows "parse_vars res field_name code len b c = None"
proof -
  have "parse_struct Map.empty code len b c 0 = None"
    by (simp add: parse_struct_def bindM_def assms)
  then have "parse_structures_loop Map.empty code len b c 0 0 = None"
    using assms(1) by (subst parse_structures_loop.simps) (simp add: bindM_def)
  then show ?thesis
    by (simp add: parse_vars_def parse_structures_def bindM_def)
qed

text \<open>
  C7. For a source without the keyword, \<open>parse_vars\<close> is to be a no-op: it returns
  and leaves the results as they were. The code does not return on every such source,
  since it runs the struct table pass first. In \<open>struct S { float x / y; };\<close> the
  pass meets the division slash in \<open>skip_ws\<close>. In the struct \<open>L\<close>, whose two
  fields a block comment \<open>/* a*b */\<close> and a newline separate, the scan of the comment
  ends on its inner star, the rest of the comment is read as field tokens, and
  \<open>skip_ws\<close> meets the closing slash before the newline. Neither call returns.
\<close>

theorem parse_vars_no_keyword_hangs:
  "\<not> sublist ''uniform'' ''struct S { float x / y; };''
   \<and> parse_vars res ''uniform'' ''struct S { float x / y; };'' 26
       std_base_types std_complex_types = None
   \<and> \<not> sublist ''attribute''
         (''struct L { vec3 p; /* a*b */'' @ [CHR 0x0A] @ '' vec3 c; };'')
   \<and> parse_vars res ''attribute''
         (''struct L { vec3 p; /* a*b */'' @ [CHR 0x0A] @ '' vec3 c; };'') 40
         std_base_types std_complex_types = None"
proof (intro conjI)
  show "\<not> sublist ''uniform'' ''struct S { float x / y; };''"
    by code_simp
next
  let ?src = "''struct S { float x / y; };''"
  have hd: "struct_head ?src 26 0 = Some (Inr (Some (''S'', 11)))" by code_simp
  have s1: "skip_ws ?src 11 26 = Some (Inr 11)" by code_simp
  have c1: "rd ?src 11 = Inr (CHR ''f'')" by code_simp
  have t1: "next_tok ?src 11 26 = Inr (''float'', 16)" by code_simp
  have b1: "is_builtin_type ''float'' std_base_types std_complex_types" by code_simp
  have s2: "skip_ws ?src 16 26 = Some (Inr 17)" by code_simp
  have t2: "next_tok ?src 17 26 = Inr (''x'', 18)" by code_simp
  have rn: "skip_ws_round ?src 18 26 = Inr (19, False)" by code_simp
  have "skip_ws ?src 19 26 = None"
    by (rule skip_ws_lone_slash[where ?c1.0 = "CHR '' ''"]) (simp_all add: rd_def)
  then have "skip_ws ?src 18 26 = None"
    using skip_ws_round_again[OF _ rn] by simp
  then have "struct_field_tail ?src 26 18 [''x''] = None"
    by (rule struct_field_tail_hangs)
  then have "struct_field Map.empty ?src 26 std_base_types std_complex_types 11 [] = None"
    by (simp add: struct_field_def bindM_def s1 c1 t1 b1 s2 t2)
  then have "struct_body Map.empty ?src 26 std_base_types std_complex_types 11 [] = None"
    by (intro struct_body_hangs) simp_all
  with hd show "parse_vars res ''uniform'' ?src 26 std_base_types std_complex_types = None"
    by (intro parse_vars_struct_body_hangs) simp_all
next
  show "\<not> sublist ''attribute''
         (''struct L { vec3 p; /* a*b */'' @ [CHR 0x0A] @ '' vec3 c; };'')"
    by code_simp
next
  define src where "src = ''struct L { vec3 p; /* a*b */'' @ [CHR 0x0A] @ '' vec3 c; };''"
  have hd: "struct_head src 40 0 = Some (Inr (Some (''L'', 11)))"
    unfolding src_def by code_simp
  have f1: "struct_field Map.empty src 40 std_base_types std_complex_types 11 []
      = Some (Inr (Next (18, [''p''])))"
    unfolding src_def by code_simp
  have f2: "struct_field Map.empty src 40 std_base_types std_complex_types 18 [''p'']
      = Some (Inr (Next (26, [''p'', ''*b''])))"
    unfolding src_def by code_simp
  have s1: "skip_ws src 26 40 = Some (Inr 26)"
    unfolding src_def by code_simp
  have c1: "rd src 26 = Inr (CHR ''*'')"
    unfolding src_def by code_simp
  have t1: "next_tok src 26 40 = Inr (''*'', 27)"
    unfolding src_def by code_simp
  have b1: "\<not> is_builtin_type ''*'' std_base_types std_complex_types"
    by code_simp
  have r0: "rd src 27 = Inr (CHR ''/'')"
    unfolding src_def by code_simp
  have r1: "rd src (27 + 1) = Inr (CHR 0x0A)"
    unfolding src_def by code_simp
  have "skip_ws src 27 40 = None"
    by (rule skip_ws_lone_slash[OF _ r0 r1]) simp_all
  then have "struct_field_tail src 40 27 [''p'', ''*b'', ''*''] = None"
    by (rule struct_field_tail_hangs)
  then have "struct_field Map.empty src 40 std_base_types std_complex_types 26 [''p'', ''*b'']
      = None"
    by (simp add: struct_field_def bindM_def s1 c1 t1 b1 get_struct_field_def)
  then have "struct_body Map.empty src 40 std_base_types std_complex_types 26 [''p'', ''*b'']
      = None"
    by (intro struct_body_hangs) simp_all
  then have "struct_body Map.empty src 40 std_base_types std_complex_types 18 [''p''] = None"
    using struct_body_next[OF _ f2] by simp
  then have "struct_body Map.empty src 40 std_base_types std_complex_types 11 [] = None"
    using struct_body_next[OF _ f1] by simp
  with hd have "parse_vars res ''attribute'' src 40 std_base_types std_complex_types = None"
    by (intro parse_vars_struct_body_hangs) simp_all
  then show "parse_vars res ''attribute''
         (''struct L { vec3 p; /* a*b */'' @ [CHR 0x0A] @ '' vec3 c; };'') 40
         std_base_types std_complex_types = None"
    unfolding src_def .
qed

section \<open>Properties of lookup and load\<close>

text \<open>
  C9. For a path that is not a key of the table, \<open>get_uniform\<close> and
  \<open>get_attribute\<close> return the handle 0 and leave the object, with its tables, as it
  was.
\<close>

theorem lookup_unknown_path:
  "(uni \<notin> dom (m_uniforms s) \<longrightarrow> get_uniform uni s = (0, s))
   \<and> (attr \<notin> dom (m_attributes s) \<longrightarrow> get_attribute attr s = (0, s))"
  by (auto simp: get_uniform_def get_attribute_def split: option.splits)

theorem lookup_unknown_path_witness:
  "''b'' \<notin> dom (m_uniforms (new_shader\<lparr>m_uniforms := [''a'' \<mapsto> 3]\<rparr>))
   \<and> get_uniform ''b'' (new_shader\<lparr>m_uniforms := [''a'' \<mapsto> 3]\<rparr>)
       = (0, new_shader\<lparr>m_uniforms := [''a'' \<mapsto> 3]\<rparr>)
   \<and> ''pos'' \<notin> dom (m_attributes (new_shader\<lparr>m_attributes := [''normal'' \<mapsto> 1]\<rparr>))
   \<and> get_attribute ''pos'' (new_shader\<lparr>m_attributes := [''normal'' \<mapsto> 1]\<rparr>)
       = (0, new_shader\<lparr>m_attributes := [''normal'' \<mapsto> 1]\<rparr>)"
proof -
  have u: "''b'' \<notin> dom (m_uniforms (new_shader\<lparr>m_uniforms := [''a'' \<mapsto> 3]\<rparr>))"
    by simp
  have a: "''pos'' \<notin> dom (m_attributes (new_shader\<lparr>m_attributes := [''normal'' \<mapsto> 1]\<rparr>))"
    by simp
  from lookup_unknown_path[of "''b''" "new_shader\<lparr>m_uniforms := [''a'' \<mapsto> 3]\<rparr>" "''pos''"]
       lookup_unknown_path[of _ "new_shader\<lparr>m_attributes := [''normal'' \<mapsto> 1]\<rparr>" "''pos''"]
       u a
  show ?thesis by blast
qed

text \<open>
  C10. \<open>load\<close> appends the uniforms and attributes of the source to the pending
  sequences before it looks at the compile status: the pending sequences after the call
  are the results of the two extractions, whatever the graphics library answered. So a
  call that returns \<open>false\<close> has extended them all the same: compiling
  \<open>uniform float a; ERROR\<close> fails and leaves \<open>a\<close> pending.
\<close>

theorem load_pending_independent_of_status:
  "bindM (load gl code len s)
     (\<lambda>(ok, s'). Some (Inr (m_pending_uniforms s', m_pending_attributes s')))
   = bindM (parse_vars (m_pending_uniforms s) ''uniform'' code len
              (m_builtin_types s) (m_complex_builtin_types s)) (\<lambda>pu.
       bindM (parse_vars (m_pending_attributes s) ''attribute'' code len
                (m_builtin_types s) (m_complex_builtin_types s)) (\<lambda>pa.
         Some (Inr (pu, pa))))
   \<and> load \<lparr>gl_shader = 1, gl_status = GL_FALSE, gl_log = ''bad''\<rparr>
        ''uniform float a; ERROR'' 22 new_shader
      = Some (Inr (False, new_shader\<lparr>m_pending_uniforms := [''a''],
                                      m_log_buffer := ''LD:bad'' @ [CHR 0x0A]\<rparr>))"
proof
  show "bindM (load gl code len s)
     (\<lambda>(ok, s'). Some (Inr (m_pending_uniforms s', m_pending_attributes s')))
   = bindM (parse_vars (m_pending_uniforms s) ''uniform'' code len
              (m_builtin_types s) (m_complex_builtin_types s)) (\<lambda>pu.
       bindM (parse_vars (m_pending_attributes s) ''attribute'' code len
                (m_builtin_types s) (m_complex_builtin_types s)) (\<lambda>pa.
         Some (Inr (pu, pa))))"
    by (simp add: load_def bindM_def Let_def split: option.splits sum.splits)
next
  have u: "parse_vars [] ''uniform'' ''uniform float a; ERROR'' 22
      std_base_types std_complex_types = Some (Inr [''a''])"
    by code_simp
  have a: "parse_vars [] ''attribute'' ''uniform float a; ERROR'' 22
      std_base_types std_complex_types = Some (Inr [])"
    by code_simp
  show "load \<lparr>gl_shader = 1, gl_status = GL_FALSE, gl_log = ''bad''\<rparr>
        ''uniform float a; ERROR'' 22 new_shader
      = Some (Inr (False, new_shader\<lparr>m_pending_uniforms := [''a''],
                                      m_log_buffer := ''LD:bad'' @ [CHR 0x0A]\<rparr>))"
    by (simp add: load_def new_shader_def u a bindM_def)
qed

end
